theory Spec2Isabelle
  imports Complex_Main "HOL-Library.Word" "HOL-Library.Log_Nat" "HOL-Library.Code_Target_Numeral"
begin

section \<open>Strings\<close>

text \<open>
  A JavaScript string is a sequence of UTF-16 code units. The texts of the program
  contain code units beyond Latin-1 (the Euro sign U+20AC), so a string is a list of
  16-bit words. \<open>lit\<close> embeds an ASCII literal.
\<close>

type_synonym jsstring = "16 word list"

definition lit :: "string \<Rightarrow> jsstring" where
  "lit s = map (\<lambda>c. of_nat (of_char c)) s"

definition comma :: "16 word" where
  "comma = 0x2C"

definition period :: "16 word" where
  "period = 0x2E"

definition euro :: "16 word" where
  "euro = 0x20AC"

definition isDigit :: "16 word \<Rightarrow> bool" where
  "isDigit c = (0x30 \<le> c \<and> c \<le> 0x39)"

text \<open>
  \<open>String.prototype.trim\<close> strips WhiteSpace and LineTerminator code points from both
  ends: TAB, LF, VT, FF, CR, SP, NBSP, the Unicode space separators, LS, PS and the
  byte order mark.
\<close>

definition isWhiteSpace :: "16 word \<Rightarrow> bool" where
  "isWhiteSpace c =
     (c = 0x09 \<or> c = 0x0A \<or> c = 0x0B \<or> c = 0x0C \<or> c = 0x0D \<or> c = 0x20 \<or> c = 0xA0
      \<or> c = 0x1680 \<or> (0x2000 \<le> c \<and> c \<le> 0x200A) \<or> c = 0x2028 \<or> c = 0x2029
      \<or> c = 0x202F \<or> c = 0x205F \<or> c = 0x3000 \<or> c = 0xFEFF)"

definition trimStart :: "jsstring \<Rightarrow> jsstring" where
  "trimStart s = dropWhile isWhiteSpace s"

definition trim :: "jsstring \<Rightarrow> jsstring" where
  "trim s = rev (dropWhile isWhiteSpace (rev (dropWhile isWhiteSpace s)))"

text \<open>
  \<open>s.replace(a, b)\<close> with a one-character string pattern replaces the first occurrence
  only.
\<close>

fun replaceFirst :: "16 word \<Rightarrow> 16 word \<Rightarrow> jsstring \<Rightarrow> jsstring" where
  "replaceFirst a b [] = []"
| "replaceFirst a b (c # cs) = (if c = a then b # cs else c # replaceFirst a b cs)"

text \<open>
  The input pattern \<open>/^\d*([,.]\d{0,2})?$/\<close>: the greedy digit run is the only way to
  match, since the character after it must be a separator or the end of the input.
\<close>

definition regex_test :: "jsstring \<Rightarrow> bool" where
  "regex_test v =
     (case dropWhile isDigit v of
        [] \<Rightarrow> True
      | c # fr \<Rightarrow> (c = comma \<or> c = period) \<and> length fr \<le> 2 \<and> list_all isDigit fr)"

section \<open>Numbers\<close>

text \<open>
  A JavaScript Number is an IEEE 754 binary64 value. A finite value is kept as the
  rational it denotes; the two zeros are one value \<open>Fin 0\<close>, which the program cannot
  tell apart (it only adds parsed values to a sum that starts at \<open>+0\<close>, compares them
  with zero and prints them with \<open>toFixed\<close>, and the divisor is an array length).
\<close>

datatype jsnum = NaN | Fin rat | PosInf | NegInf

definition round_half_even :: "rat \<Rightarrow> int" where
  "round_half_even r =
     (let f = \<lfloor>r\<rfloor>; d = r - of_int f
      in if d < 1 / 2 then f else if 1 / 2 < d then f + 1
         else if even f then f else f + 1)"

definition pow2 :: "int \<Rightarrow> rat" where
  "pow2 k = (if 0 \<le> k then 2 ^ nat k else 1 / 2 ^ nat (- k))"

text \<open>The exponent \<open>e\<close> with \<open>pow2 e \<le> a < pow2 (e + 1)\<close>, for \<open>a > 0\<close>.\<close>

definition binade :: "rat \<Rightarrow> int" where
  "binade a = (if 1 \<le> a then bitlen \<lfloor>a\<rfloor> - 1 else - bitlen (\<lceil>1 / a\<rceil> - 1))"

text \<open>
  Rounding a rational to binary64, ties to even: the significand has 53 bits, the least
  exponent is -1022 (below it the spacing stays \<open>pow2 (- 1074)\<close>), and a rounded
  magnitude of \<open>pow2 1024\<close> or more overflows to an infinity.
\<close>

definition round64 :: "rat \<Rightarrow> jsnum" where
  "round64 q =
     (if q = 0 then Fin 0
      else
        let a = \<bar>q\<bar>;
            e = max (binade a) (- 1022);
            u = pow2 (e - 52);
            v = of_int (round_half_even (a / u)) * u
        in if pow2 1024 \<le> v then (if 0 < q then PosInf else NegInf)
           else Fin (if 0 < q then v else - v))"

definition isNaN :: "jsnum \<Rightarrow> bool" where
  "isNaN x = (x = NaN)"

text \<open>The comparison \<open>x < 0\<close>.\<close>

fun js_negative :: "jsnum \<Rightarrow> bool" where
  "js_negative NaN = False"
| "js_negative (Fin q) = (q < 0)"
| "js_negative PosInf = False"
| "js_negative NegInf = True"

fun js_add :: "jsnum \<Rightarrow> jsnum \<Rightarrow> jsnum" where
  "js_add NaN y = NaN"
| "js_add x NaN = NaN"
| "js_add PosInf NegInf = NaN"
| "js_add NegInf PosInf = NaN"
| "js_add PosInf y = PosInf"
| "js_add NegInf y = NegInf"
| "js_add x PosInf = PosInf"
| "js_add x NegInf = NegInf"
| "js_add (Fin a) (Fin b) = round64 (a + b)"

fun js_neg :: "jsnum \<Rightarrow> jsnum" where
  "js_neg NaN = NaN"
| "js_neg (Fin q) = Fin (- q)"
| "js_neg PosInf = NegInf"
| "js_neg NegInf = PosInf"

fun js_mul :: "jsnum \<Rightarrow> jsnum \<Rightarrow> jsnum" where
  "js_mul NaN y = NaN"
| "js_mul x NaN = NaN"
| "js_mul (Fin a) (Fin b) = round64 (a * b)"
| "js_mul (Fin a) y = (if a = 0 then NaN else if 0 < a then y else js_neg y)"
| "js_mul x (Fin b) = (if b = 0 then NaN else if 0 < b then x else js_neg x)"
| "js_mul PosInf y = y"
| "js_mul NegInf y = js_neg y"

text \<open>Division; a zero divisor is \<open>+0\<close> (the only divisor of the program is a length).\<close>

fun js_div :: "jsnum \<Rightarrow> jsnum \<Rightarrow> jsnum" where
  "js_div NaN y = NaN"
| "js_div x NaN = NaN"
| "js_div (Fin a) (Fin b) =
     (if b = 0 then (if a = 0 then NaN else if 0 < a then PosInf else NegInf)
      else round64 (a / b))"
| "js_div (Fin a) y = Fin 0"
| "js_div x (Fin b) = (if 0 \<le> b then x else js_neg x)"
| "js_div x y = NaN"

section \<open>Parsing and printing numbers\<close>

definition plus_sign :: "16 word" where
  "plus_sign = 0x2B"

definition minus_sign :: "16 word" where
  "minus_sign = 0x2D"

definition zero_digit :: "16 word" where
  "zero_digit = 0x30"

definition digitVal :: "16 word \<Rightarrow> nat" where
  "digitVal c = unat c - 48"

definition digitsVal :: "jsstring \<Rightarrow> nat" where
  "digitsVal ds = foldl (\<lambda>n c. 10 * n + digitVal c) 0 ds"

definition pow10 :: "int \<Rightarrow> rat" where
  "pow10 k = (if 0 \<le> k then 10 ^ nat k else 1 / 10 ^ nat (- k))"

text \<open>
  The value of an ExponentPart at the head of the text (\<open>e\<close> or \<open>E\<close>, an optional sign,
  at least one digit); 0 when none is there.
\<close>

definition exponentPart :: "jsstring \<Rightarrow> int" where
  "exponentPart r =
     (case r of
        [] \<Rightarrow> 0
      | c # r1 \<Rightarrow>
          if c = 0x65 \<or> c = 0x45 then
            (case r1 of
               [] \<Rightarrow> 0
             | d # r2 \<Rightarrow>
                 if d = plus_sign then int (digitsVal (takeWhile isDigit r2))
                 else if d = minus_sign then - int (digitsVal (takeWhile isDigit r2))
                 else int (digitsVal (takeWhile isDigit r1)))
          else 0)"

text \<open>
  The mathematical value of the longest prefix that is a StrUnsignedDecimalLiteral
  other than \<open>Infinity\<close>: digits, an optional fraction, an optional exponent, with a
  digit on at least one side of the point. \<open>None\<close> when no prefix is one.
\<close>

definition strUnsignedDecimalLiteral :: "jsstring \<Rightarrow> rat option" where
  "strUnsignedDecimalLiteral t =
     (let ds = takeWhile isDigit t; r = dropWhile isDigit t
      in case r of
           [] \<Rightarrow> if ds = [] then None else Some (of_int (int (digitsVal ds)))
         | c # r1 \<Rightarrow>
             if c = period then
               (let fs = takeWhile isDigit r1; r2 = dropWhile isDigit r1
                in if ds = [] \<and> fs = [] then None
                   else Some (of_int (int (digitsVal (ds @ fs)))
                              * pow10 (exponentPart r2 - int (length fs))))
             else if ds = [] then None
             else Some (of_int (int (digitsVal ds)) * pow10 (exponentPart r)))"

text \<open>
  \<open>parseFloat\<close>: leading white space is skipped, the longest prefix that is a
  StrDecimalLiteral is read and anything after it is ignored; the value is rounded to
  binary64. Without such a prefix the result is \<open>NaN\<close>.
\<close>

definition parseFloat :: "jsstring \<Rightarrow> jsnum" where
  "parseFloat s =
     (let t = trimStart s;
          neg = (t \<noteq> [] \<and> hd t = minus_sign);
          u = (if t \<noteq> [] \<and> (hd t = minus_sign \<or> hd t = plus_sign) then tl t else t)
      in if take 8 u = lit ''Infinity'' then (if neg then NegInf else PosInf)
         else case strUnsignedDecimalLiteral u of
                None \<Rightarrow> NaN
              | Some mv \<Rightarrow> round64 (if neg then - mv else mv))"

definition digitChar :: "nat \<Rightarrow> 16 word" where
  "digitChar d = of_nat (48 + d)"

text \<open>The digits of the decimal representation of a natural number.\<close>

fun decDigits :: "nat \<Rightarrow> jsstring" where
  "decDigits n =
     (if n < 10 then [digitChar n] else decDigits (n div 10) @ [digitChar (n mod 10)])"

declare decDigits.simps [simp del]

text \<open>
  \<open>Number::toString\<close> of a finite value of at least \<open>10^21\<close> (such a binary64 value is
  an integer): the shortest digit string \<open>s\<close> of \<open>k\<close> digits with \<open>s * 10^(n - k)\<close>
  rounding to the value, the one nearest to the value when two qualify, printed in
  exponential notation.
\<close>

definition shortest_at :: "nat \<Rightarrow> nat \<Rightarrow> nat \<Rightarrow> nat option" where
  "shortest_at x nd k =
     (let p = 10 ^ (nd - k); lo = x div p;
          ok = (\<lambda>s. round64 (of_int (int (s * p))) = Fin (of_int (int x)))
      in if ok lo \<and> ok (lo + 1) then
           (if x - lo * p \<le> (lo + 1) * p - x then Some lo else Some (lo + 1))
         else if ok lo then Some lo
         else if ok (lo + 1) then Some (lo + 1)
         else None)"

fun shortest_from :: "nat \<Rightarrow> nat \<Rightarrow> nat \<Rightarrow> nat \<Rightarrow> nat \<times> nat" where
  "shortest_from x nd k 0 = (x, nd)"
| "shortest_from x nd k (Suc fuel) =
     (case shortest_at x nd k of
        Some s \<Rightarrow> (s, k)
      | None \<Rightarrow> shortest_from x nd (Suc k) fuel)"

definition exponential :: "nat \<Rightarrow> nat \<Rightarrow> jsstring" where
  "exponential s n =
     (let ds = decDigits s
      in (if length ds = 1 then ds else hd ds # period # tl ds)
         @ lit ''e+'' @ decDigits (n - 1))"

definition largeToString :: "nat \<Rightarrow> jsstring" where
  "largeToString x =
     (let nd = length (decDigits x); (s, k) = shortest_from x nd 1 nd
      in if s = 10 ^ k then exponential 1 (nd + 1) else exponential s nd)"

text \<open>
  \<open>x.toFixed(2)\<close>: a non-finite value prints as its name; a magnitude of \<open>10^21\<close> or
  more prints as \<open>Number::toString\<close> does; otherwise the nearest multiple of 0.01
  (the larger one on a tie) is printed with at least one integer digit.
\<close>

definition toFixed2 :: "jsnum \<Rightarrow> jsstring" where
  "toFixed2 x =
     (case x of
        NaN \<Rightarrow> lit ''NaN''
      | PosInf \<Rightarrow> lit ''Infinity''
      | NegInf \<Rightarrow> lit ''-Infinity''
      | Fin q \<Rightarrow>
          (let s = (if q < 0 then [minus_sign] else []); a = \<bar>q\<bar>
           in if 10 ^ 21 \<le> a then s @ largeToString (nat \<lfloor>a\<rfloor>)
              else
                let n = nat \<lfloor>a * 100 + 1 / 2\<rfloor>;
                    m = decDigits n;
                    m2 = (if length m \<le> 2 then replicate (3 - length m) zero_digit @ m else m);
                    k = length m2
                in s @ take (k - 2) m2 @ [period] @ drop (k - 2) m2))"

section \<open>The currency formatter\<close>

text \<open>
  \<open>Intl.NumberFormat('de-DE', {style: 'currency', currency: 'EUR', minimumFractionDigits: 2,
  maximumFractionDigits: 2}).formatToParts\<close>: the pattern is sign, integer digits in
  groups of three separated by a period, a decimal comma, two fraction digits, a
  no-break space and the Euro sign. The formatter (ICU) does not round the exact binary
  value: it takes the shortest decimal that reads back as the value, the one
  \<open>Number::toString\<close> prints, and rounds that to the nearest hundredth, half away
  from zero. So \<open>0.3 * 0.05\<close>, whose shortest decimal is \<open>0.015\<close>, is shown as
  \<open>0,02\<close> although the binary value lies below 0.015. A non-finite value has no digit
  parts but an \<open>infinity\<close> or \<open>nan\<close> part.
\<close>

datatype part_type =
  PInteger | PGroup | PDecimal | PFraction | PLiteral | PCurrency | PMinusSign | PInfinity | PNan

fun chunks3 :: "jsstring \<Rightarrow> jsstring list" where
  "chunks3 (a # b # c # d # rest) = [a, b, c] # chunks3 (d # rest)"
| "chunks3 xs = [xs]"

definition groups3 :: "jsstring \<Rightarrow> jsstring list" where
  "groups3 ds = rev (map rev (chunks3 (rev ds)))"

fun integerParts :: "jsstring list \<Rightarrow> (part_type \<times> jsstring) list" where
  "integerParts [] = []"
| "integerParts [g] = [(PInteger, g)]"
| "integerParts (g # gs) = (PInteger, g) # (PGroup, [period]) # integerParts gs"

definition currencyTail :: "(part_type \<times> jsstring) list" where
  "currencyTail = [(PLiteral, [0xA0]), (PCurrency, [euro])]"

text \<open>The decimal exponent \<open>n\<close> with \<open>pow10 (n - 1) \<le> a < pow10 n\<close>, for \<open>a > 0\<close>.\<close>

definition decade :: "rat \<Rightarrow> int" where
  "decade a =
     (if 1 \<le> a then int (length (decDigits (nat \<lfloor>a\<rfloor>)))
      else 1 - int (length (decDigits (nat (\<lceil>1 / a\<rceil> - 1)))))"

text \<open>
  The digit string of \<open>k\<close> digits, if there is one, whose decimal \<open>s * pow10 (n - k)\<close>
  rounds to the binary64 value \<open>a\<close>; the one nearer to \<open>a\<close> when two do.
\<close>

definition digits_at :: "rat \<Rightarrow> int \<Rightarrow> nat \<Rightarrow> nat option" where
  "digits_at a n k =
     (let p = pow10 (n - int k); lo = nat \<lfloor>a / p\<rfloor>;
          ok = (\<lambda>s. round64 (of_int (int s) * p) = Fin a)
      in if ok lo \<and> ok (lo + 1) then
           (if a - of_int (int lo) * p \<le> of_int (int (lo + 1)) * p - a
            then Some lo else Some (lo + 1))
         else if ok lo then Some lo
         else if ok (lo + 1) then Some (lo + 1)
         else None)"

text \<open>
  The shortest decimal that rounds to \<open>a\<close>, searched from \<open>k\<close> digits upwards. Seventeen
  digits always identify a binary64 value; for a rational that is not one the search
  may end without a decimal and the value itself is taken.
\<close>

fun shortest_decimal_from :: "rat \<Rightarrow> int \<Rightarrow> nat \<Rightarrow> nat \<Rightarrow> rat" where
  "shortest_decimal_from a n k 0 = a"
| "shortest_decimal_from a n k (Suc fuel) =
     (case digits_at a n k of
        Some s \<Rightarrow> of_int (int s) * pow10 (n - int k)
      | None \<Rightarrow> shortest_decimal_from a n (Suc k) fuel)"

definition shortestDecimal :: "rat \<Rightarrow> rat" where
  "shortestDecimal a = (if a = 0 then 0 else shortest_decimal_from a (decade a) 1 17)"

definition formatToParts :: "jsnum \<Rightarrow> (part_type \<times> jsstring) list" where
  "formatToParts x =
     (case x of
        NaN \<Rightarrow> (PNan, lit ''NaN'') # currencyTail
      | PosInf \<Rightarrow> (PInfinity, [0x221E]) # currencyTail
      | NegInf \<Rightarrow> (PMinusSign, [minus_sign]) # (PInfinity, [0x221E]) # currencyTail
      | Fin q \<Rightarrow>
          (let n = nat \<lfloor>shortestDecimal \<bar>q\<bar> * 100 + 1 / 2\<rfloor>
           in (if q < 0 then [(PMinusSign, [minus_sign])] else [])
              @ integerParts (groups3 (decDigits (n div 100)))
              @ [(PDecimal, [comma]),
                 (PFraction, [digitChar (n mod 100 div 10), digitChar (n mod 10)])]
              @ currencyTail))"

section \<open>Component state\<close>

text \<open>
  One entry of the \<open>inputs\<close> array, \<open>{ id, value }\<close>. The ids are integer-valued
  JavaScript numbers produced by a counter that starts at 2 and is incremented by one;
  they are modelled as natural numbers, which agrees with the counter throughout the
  safe-integer range.
\<close>

record input =
  input_id :: nat
  input_value :: jsstring

record result_parts =
  number :: jsstring
  currency :: jsstring

text \<open>
  The state of the \<open>Home\<close> component: the four \<open>useState\<close> cells and the
  \<open>nextId\<close> ref. The empty string is the absent error.
\<close>

record state =
  inputs :: "input list"
  nextId :: nat
  result :: result_parts
  error :: jsstring
  isResultVisible :: bool

definition zero_result :: result_parts where
  "zero_result = \<lparr>number = lit ''0.00'', currency = [euro]\<rparr>"

definition init :: state where
  "init = \<lparr>inputs = [\<lparr>input_id = 1, input_value = []\<rparr>], nextId = 2,
            result = zero_result, error = [], isResultVisible = False\<rparr>"

definition setValue :: "nat \<Rightarrow> jsstring \<Rightarrow> input \<Rightarrow> input" where
  "setValue i v inp = (if input_id inp = i then inp\<lparr>input_value := v\<rparr> else inp)"

text \<open>\<open>handleInputChange\<close> of the variant with the input pattern (strict variant).\<close>

definition handleInputChange_strict :: "nat \<Rightarrow> jsstring \<Rightarrow> state \<Rightarrow> state" where
  "handleInputChange_strict i v s =
     (let s1 = (if isResultVisible s then s\<lparr>isResultVisible := False\<rparr> else s)
      in if regex_test v
         then s1\<lparr>inputs := map (setValue i v) (inputs s),
                 error := (if error s \<noteq> [] then [] else error s)\<rparr>
         else s1)"

text \<open>\<open>handleInputChange\<close> of the variant without the pattern (lenient variant).\<close>

definition handleInputChange_lenient :: "nat \<Rightarrow> jsstring \<Rightarrow> state \<Rightarrow> state" where
  "handleInputChange_lenient i v s =
     s\<lparr>inputs := map (setValue i v) (inputs s),
       error := (if error s \<noteq> [] then [] else error s)\<rparr>"

definition addInput :: "state \<Rightarrow> state" where
  "addInput s =
     s\<lparr>inputs := inputs s @ [\<lparr>input_id = nextId s, input_value = []\<rparr>],
       nextId := nextId s + 1\<rparr>"

definition removeInput :: "nat \<Rightarrow> state \<Rightarrow> state" where
  "removeInput i s =
     (if length (inputs s) > 1
      then s\<lparr>inputs := filter (\<lambda>inp. input_id inp \<noteq> i) (inputs s)\<rparr>
      else s)"

definition handleReset :: "state \<Rightarrow> state" where
  "handleReset s =
     s\<lparr>inputs := [\<lparr>input_id = 1, input_value = []\<rparr>], nextId := 2,
       isResultVisible := False, error := [], result := zero_result\<rparr>"

section \<open>Normalising an entry on blur\<close>

text \<open>\<open>handleInputBlur\<close> (strict variant only).\<close>

definition handleInputBlur :: "nat \<Rightarrow> state \<Rightarrow> state" where
  "handleInputBlur i s =
     (case find (\<lambda>inp. input_id inp = i) (inputs s) of
        None \<Rightarrow> s
      | Some inp \<Rightarrow>
          if trim (input_value inp) = [] then s
          else
            let sanitizedValue = replaceFirst comma period (input_value inp);
                numericValue = parseFloat sanitizedValue
            in if \<not> isNaN numericValue
               then
                 let formattedValue = replaceFirst period comma (toFixed2 numericValue)
                 in s\<lparr>inputs := map (setValue i formattedValue) (inputs s)\<rparr>
               else s)"

section \<open>The calculation\<close>

text \<open>
  The two error messages: \<open>msgMissing\<close> is the error kind MissingAmount,
  \<open>msgInvalid\<close> the error kind InvalidAmount.
\<close>

definition msgMissing :: jsstring where
  "msgMissing = lit ''Bitte f'' @ [0xFC] @ lit ''llen Sie alle Felder aus oder entfernen Sie leere Zeilen.''"

definition msgInvalid :: jsstring where
  "msgInvalid = lit ''Bitte stellen Sie sicher, dass alle Betr'' @ [0xE4] @ lit ''ge g'' @ [0xFC]
                @ lit ''ltige, positive Zahlen sind.''"

text \<open>
  The \<open>for ... of\<close> loop of the strict variant, from the running \<open>sum\<close>: \<open>Inl\<close> is the
  message set before the \<open>break\<close>, \<open>Inr\<close> the sum when the loop runs to its end.
\<close>

fun sum_strict :: "input list \<Rightarrow> jsnum \<Rightarrow> jsstring + jsnum" where
  "sum_strict [] sumv = Inr sumv"
| "sum_strict (inp # rest) sumv =
     (if trim (input_value inp) = [] then Inl msgMissing
      else
        let sanitizedValue = replaceFirst comma period (input_value inp);
            numericValue = parseFloat sanitizedValue
        in if isNaN numericValue \<or> js_negative numericValue then Inl msgInvalid
           else sum_strict rest (js_add sumv numericValue))"

text \<open>The loop of the lenient variant: a blank entry is skipped by \<open>continue\<close>.\<close>

fun sum_lenient :: "input list \<Rightarrow> jsnum \<Rightarrow> jsstring + jsnum" where
  "sum_lenient [] sumv = Inr sumv"
| "sum_lenient (inp # rest) sumv =
     (if trim (input_value inp) = [] then sum_lenient rest sumv
      else
        let sanitizedValue = replaceFirst comma period (input_value inp);
            numericValue = parseFloat sanitizedValue
        in if isNaN numericValue \<or> js_negative numericValue then Inl msgInvalid
           else sum_lenient rest (js_add sumv numericValue))"

text \<open>The literal \<open>0.05\<close>.\<close>

definition lit_0_05 :: jsnum where
  "lit_0_05 = round64 (1 / 20)"

definition finalResultValue :: "jsnum \<Rightarrow> nat \<Rightarrow> jsnum" where
  "finalResultValue sumv len = js_mul (js_div sumv (Fin (of_int (int len)))) lit_0_05"

text \<open>The \<open>parts.forEach\<close> loop, from \<open>currencySymbol = '\<euro>'\<close> and \<open>numberValue = ''\<close>.\<close>

definition collectPart :: "result_parts \<Rightarrow> part_type \<times> jsstring \<Rightarrow> result_parts" where
  "collectPart r part =
     (if fst part = PCurrency then r\<lparr>currency := snd part\<rparr>
      else if fst part \<in> set [PInteger, PGroup, PDecimal, PFraction]
      then r\<lparr>number := number r @ snd part\<rparr>
      else r)"

definition collectParts :: "(part_type \<times> jsstring) list \<Rightarrow> result_parts" where
  "collectParts parts = foldl collectPart \<lparr>number = [], currency = [euro]\<rparr> parts"

text \<open>The part of \<open>handleCalculation\<close> after the loop, the same in both variants.\<close>

definition publish :: "state \<Rightarrow> jsnum \<Rightarrow> state" where
  "publish s sumv =
     s\<lparr>error := [],
       result := collectParts (formatToParts (finalResultValue sumv (length (inputs s)))),
       isResultVisible := True\<rparr>"

definition fail :: "state \<Rightarrow> jsstring \<Rightarrow> state" where
  "fail s msg = s\<lparr>error := msg, isResultVisible := False\<rparr>"

definition handleCalculation_strict :: "state \<Rightarrow> state" where
  "handleCalculation_strict s =
     (case sum_strict (inputs s) (Fin 0) of
        Inl msg \<Rightarrow> fail s msg
      | Inr sumv \<Rightarrow> publish s sumv)"

definition handleCalculation_lenient :: "state \<Rightarrow> state" where
  "handleCalculation_lenient s =
     (case sum_lenient (inputs s) (Fin 0) of
        Inl msg \<Rightarrow> fail s msg
      | Inr sumv \<Rightarrow> publish s sumv)"

section \<open>Events\<close>

text \<open>
  The handlers the rendered form can call. A run is a sequence of events from the
  initial state; every handler runs to its end before the next event.
\<close>

datatype event =
  InputChange nat jsstring | InputBlur nat | AddInput | RemoveInput nat | Calculation | Reset

fun step_strict :: "state \<Rightarrow> event \<Rightarrow> state" where
  "step_strict s (InputChange i v) = handleInputChange_strict i v s"
| "step_strict s (InputBlur i) = handleInputBlur i s"
| "step_strict s AddInput = addInput s"
| "step_strict s (RemoveInput i) = removeInput i s"
| "step_strict s Calculation = handleCalculation_strict s"
| "step_strict s Reset = handleReset s"

definition run_strict :: "event list \<Rightarrow> state" where
  "run_strict evs = foldl step_strict init evs"

text \<open>The lenient variant has neither a blur handler nor a reset.\<close>

datatype event_lenient =
  LInputChange nat jsstring | LAddInput | LRemoveInput nat | LCalculation

fun step_lenient :: "state \<Rightarrow> event_lenient \<Rightarrow> state" where
  "step_lenient s (LInputChange i v) = handleInputChange_lenient i v s"
| "step_lenient s LAddInput = addInput s"
| "step_lenient s (LRemoveInput i) = removeInput i s"
| "step_lenient s LCalculation = handleCalculation_lenient s"

definition run_lenient :: "event_lenient list \<Rightarrow> state" where
  "run_lenient evs = foldl step_lenient init evs"

section \<open>Notions used by the properties\<close>

definition ids :: "state \<Rightarrow> nat list" where
  "ids s = map input_id (inputs s)"

text \<open>
  The entry list is never empty, its ids are pairwise distinct, and every id is below
  the counter.
\<close>

definition inv :: "state \<Rightarrow> bool" where
  "inv s = (inputs s \<noteq> [] \<and> distinct (ids s) \<and> list_all (\<lambda>k. k < nextId s) (ids s))"

text \<open>An entry is blank when \<open>input.value.trim() === ''\<close>.\<close>

definition blank :: "input \<Rightarrow> bool" where
  "blank inp = (trim (input_value inp) = [])"

text \<open>The number the loops read from an entry, and the test that rejects it.\<close>

definition numericValue :: "input \<Rightarrow> jsnum" where
  "numericValue inp = parseFloat (replaceFirst comma period (input_value inp))"

definition invalid :: "input \<Rightarrow> bool" where
  "invalid inp = (isNaN (numericValue inp) \<or> js_negative (numericValue inp))"


text \<open>
  The input pattern in the words of the specification: zero or more digits, optionally
  followed by a single comma or period and zero to two digits.
\<close>

definition decimal_input_pattern :: "jsstring \<Rightarrow> bool" where
  "decimal_input_pattern v =
     (\<exists>n \<le> length v. list_all isDigit (take n v) \<and>
        (drop n v = [] \<or>
         ((hd (drop n v) = comma \<or> hd (drop n v) = period) \<and> length (tl (drop n v)) \<le> 2
          \<and> list_all isDigit (tl (drop n v)))))"

text \<open>The ids held by an entry in some state of a run that starts in \<open>s\<close>.\<close>

fun held_ids_strict :: "state \<Rightarrow> event list \<Rightarrow> nat set" where
  "held_ids_strict s [] = set (ids s)"
| "held_ids_strict s (e # es) = set (ids s) \<union> held_ids_strict (step_strict s e) es"

fun held_ids_lenient :: "state \<Rightarrow> event_lenient list \<Rightarrow> nat set" where
  "held_ids_lenient s [] = set (ids s)"
| "held_ids_lenient s (e # es) = set (ids s) \<union> held_ids_lenient (step_lenient s e) es"

section \<open>The entry list is never empty\<close>

lemma input_id_setValue [simp]: "input_id (setValue i v inp) = input_id inp"
  by (simp add: setValue_def)

lemma ids_setValue [simp]: "map input_id (map (setValue i v) xs) = map input_id xs"
  by (induction xs) simp_all

lemma filter_keeps_one:
  assumes "distinct (map f xs)" and "1 < length xs"
  shows "filter (\<lambda>x. f x \<noteq> i) xs \<noteq> []"
proof -
  from assms(2) obtain a b rest where xs: "xs = a # b # rest"
    by (cases xs; cases "tl xs") auto
  with assms(1) have "f a \<noteq> f b" by auto
  then have "f a \<noteq> i \<or> f b \<noteq> i" by auto
  then show ?thesis using xs by auto
qed

lemma inv_init: "inv init"
  by (simp add: inv_def ids_def init_def)

lemma ids_handleInputChange_strict [simp]: "ids (handleInputChange_strict i v s) = ids s"
  by (simp add: handleInputChange_strict_def ids_def Let_def)

lemma nextId_handleInputChange_strict [simp]:
  "nextId (handleInputChange_strict i v s) = nextId s"
  by (simp add: handleInputChange_strict_def Let_def)

lemma length_handleInputChange_strict [simp]:
  "length (inputs (handleInputChange_strict i v s)) = length (inputs s)"
  by (simp add: handleInputChange_strict_def Let_def)

lemma ids_handleInputChange_lenient [simp]: "ids (handleInputChange_lenient i v s) = ids s"
  by (simp add: handleInputChange_lenient_def ids_def)

lemma nextId_handleInputChange_lenient [simp]:
  "nextId (handleInputChange_lenient i v s) = nextId s"
  by (simp add: handleInputChange_lenient_def)

lemma length_handleInputChange_lenient [simp]:
  "length (inputs (handleInputChange_lenient i v s)) = length (inputs s)"
  by (simp add: handleInputChange_lenient_def)

lemma ids_handleInputBlur [simp]: "ids (handleInputBlur i s) = ids s"
  by (simp add: handleInputBlur_def ids_def Let_def split: option.splits)

lemma nextId_handleInputBlur [simp]: "nextId (handleInputBlur i s) = nextId s"
  by (simp add: handleInputBlur_def Let_def split: option.splits)

lemma length_handleInputBlur [simp]:
  "length (inputs (handleInputBlur i s)) = length (inputs s)"
  by (simp add: handleInputBlur_def Let_def split: option.splits)

lemma inputs_handleCalculation_strict [simp]:
  "inputs (handleCalculation_strict s) = inputs s"
  by (simp add: handleCalculation_strict_def fail_def publish_def split: sum.splits)

lemma nextId_handleCalculation_strict [simp]:
  "nextId (handleCalculation_strict s) = nextId s"
  by (simp add: handleCalculation_strict_def fail_def publish_def split: sum.splits)

lemma inputs_handleCalculation_lenient [simp]:
  "inputs (handleCalculation_lenient s) = inputs s"
  by (simp add: handleCalculation_lenient_def fail_def publish_def split: sum.splits)

lemma nextId_handleCalculation_lenient [simp]:
  "nextId (handleCalculation_lenient s) = nextId s"
  by (simp add: handleCalculation_lenient_def fail_def publish_def split: sum.splits)

lemma inv_same_ids:
  assumes "inv s" and "ids t = ids s" and "nextId t = nextId s"
    and "length (inputs t) = length (inputs s)"
  shows "inv t"
proof -
  from assms(1) have "length (inputs s) \<noteq> 0" by (simp add: inv_def)
  with assms(4) have "inputs t \<noteq> []" by auto
  with assms show ?thesis by (simp add: inv_def)
qed

lemma inv_addInput: "inv s \<Longrightarrow> inv (addInput s)"
  by (auto simp add: inv_def ids_def addInput_def list_all_iff)

lemma inv_removeInput:
  assumes "inv s"
  shows "inv (removeInput i s)"
proof (cases "1 < length (inputs s)")
  case True
  from assms have d: "distinct (map input_id (inputs s))" by (simp add: inv_def ids_def)
  from filter_keeps_one [OF d True] have "filter (\<lambda>x. input_id x \<noteq> i) (inputs s) \<noteq> []" .
  with assms True show ?thesis
    by (auto simp add: inv_def ids_def removeInput_def list_all_iff distinct_map_filter)
next
  case False
  with assms show ?thesis by (simp add: removeInput_def)
qed

lemma handleReset_init: "handleReset s = init"
  by (simp add: handleReset_def init_def)

lemma inv_step_strict: "inv s \<Longrightarrow> inv (step_strict s e)"
proof (cases e)
  case (InputChange i v)
  assume "inv s"
  then show ?thesis unfolding InputChange step_strict.simps
    by (rule inv_same_ids) simp_all
next
  case (InputBlur i)
  assume "inv s"
  then show ?thesis unfolding InputBlur step_strict.simps
    by (rule inv_same_ids) simp_all
next
  case Calculation
  assume "inv s"
  then show ?thesis unfolding Calculation step_strict.simps
    by (rule inv_same_ids) (simp_all add: ids_def)
qed (simp_all add: inv_addInput inv_removeInput handleReset_init inv_init)

lemma inv_step_lenient: "inv s \<Longrightarrow> inv (step_lenient s e)"
proof (cases e)
  case (LInputChange i v)
  assume "inv s"
  then show ?thesis unfolding LInputChange step_lenient.simps
    by (rule inv_same_ids) simp_all
next
  case LCalculation
  assume "inv s"
  then show ?thesis unfolding LCalculation step_lenient.simps
    by (rule inv_same_ids) (simp_all add: ids_def)
qed (simp_all add: inv_addInput inv_removeInput)

lemma inv_foldl_strict: "inv s \<Longrightarrow> inv (foldl step_strict s evs)"
  by (induction evs arbitrary: s) (simp_all add: inv_step_strict)

lemma inv_foldl_lenient: "inv s \<Longrightarrow> inv (foldl step_lenient s evs)"
  by (induction evs arbitrary: s) (simp_all add: inv_step_lenient)

lemma inv_run_strict: "inv (run_strict evs)"
  by (simp add: run_strict_def inv_foldl_strict inv_init)

lemma inv_run_lenient: "inv (run_lenient evs)"
  by (simp add: run_lenient_def inv_foldl_lenient inv_init)

section \<open>The loops of the calculation\<close>

lemma sum_strict_Cons:
  "sum_strict (inp # rest) acc =
     (if blank inp then Inl msgMissing
      else if invalid inp then Inl msgInvalid
      else sum_strict rest (js_add acc (numericValue inp)))"
  by (simp add: blank_def invalid_def numericValue_def Let_def)

lemma sum_lenient_Cons:
  "sum_lenient (inp # rest) acc =
     (if blank inp then sum_lenient rest acc
      else if invalid inp then Inl msgInvalid
      else sum_lenient rest (js_add acc (numericValue inp)))"
  by (simp add: blank_def invalid_def numericValue_def Let_def)

lemma sum_strict_find:
  "sum_strict xs acc =
     (case find (\<lambda>inp. blank inp \<or> invalid inp) xs of
        None \<Rightarrow> Inr (foldl js_add acc (map numericValue xs))
      | Some inp \<Rightarrow> Inl (if blank inp then msgMissing else msgInvalid))"
  by (induction xs arbitrary: acc)
    (auto simp add: sum_strict_Cons simp del: sum_strict.simps(2) split: option.splits)

lemma sum_lenient_find:
  "sum_lenient xs acc =
     (case find (\<lambda>inp. \<not> blank inp \<and> invalid inp) xs of
        None \<Rightarrow> Inr (foldl js_add acc (map numericValue (filter (\<lambda>inp. \<not> blank inp) xs)))
      | Some inp \<Rightarrow> Inl msgInvalid)"
  by (induction xs arbitrary: acc)
    (auto simp add: sum_lenient_Cons simp del: sum_lenient.simps(2) split: option.splits)


lemma sum_strict_blank:
  assumes "list_ex blank xs"
  shows "sum_strict xs acc =
           Inl (if list_all (\<lambda>inp. \<not> invalid inp) (takeWhile (\<lambda>inp. \<not> blank inp) xs)
                then msgMissing else msgInvalid)"
  using assms
proof (induction xs arbitrary: acc)
  case Nil
  then show ?case by simp
next
  case (Cons inp rest)
  show ?case
  proof (cases "blank inp \<or> invalid inp")
    case True
    then show ?thesis unfolding sum_strict_Cons by auto
  next
    case False
    with Cons.prems have "list_ex blank rest" by simp
    from Cons.IH [OF this] False show ?thesis unfolding sum_strict_Cons by simp
  qed
qed

lemma sum_strict_invalid:
  assumes "list_ex (\<lambda>inp. \<not> blank inp \<and> invalid inp) xs"
  shows "sum_strict xs acc =
           Inl (if list_ex blank (takeWhile (\<lambda>inp. \<not> (\<not> blank inp \<and> invalid inp)) xs)
                then msgMissing else msgInvalid)"
  using assms
proof (induction xs arbitrary: acc)
  case Nil
  then show ?case by simp
next
  case (Cons inp rest)
  show ?case
  proof (cases "blank inp \<or> invalid inp")
    case True
    then show ?thesis unfolding sum_strict_Cons by auto
  next
    case False
    with Cons.prems have "list_ex (\<lambda>inp. \<not> blank inp \<and> invalid inp) rest" by simp
    from Cons.IH [OF this] False show ?thesis unfolding sum_strict_Cons by simp
  qed
qed

lemma sum_lenient_invalid:
  assumes "list_ex (\<lambda>inp. \<not> blank inp \<and> invalid inp) xs"
  shows "sum_lenient xs acc = Inl msgInvalid"
  using assms
proof (induction xs arbitrary: acc)
  case Nil
  then show ?case by simp
next
  case (Cons inp rest)
  show ?case
  proof (cases "\<not> blank inp \<and> invalid inp")
    case True
    then show ?thesis unfolding sum_lenient_Cons by simp
  next
    case False
    with Cons.prems have "list_ex (\<lambda>inp. \<not> blank inp \<and> invalid inp) rest" by simp
    from Cons.IH [OF this] False show ?thesis unfolding sum_lenient_Cons by auto
  qed
qed

lemma sum_strict_Inl: "sum_strict xs acc = Inl msg \<Longrightarrow> msg = msgMissing \<or> msg = msgInvalid"
  by (simp add: sum_strict_find split: option.splits if_splits)

lemma sum_lenient_Inl: "sum_lenient xs acc = Inl msg \<Longrightarrow> msg = msgInvalid"
  by (simp add: sum_lenient_find split: option.splits)

lemma msg_distinct: "msgMissing \<noteq> msgInvalid"
  by (simp add: msgMissing_def msgInvalid_def lit_def)



section \<open>Evaluation rules\<close>

lemma floor_rat_numeral:
  "\<lfloor>numeral a / numeral b :: rat\<rfloor> = numeral a div numeral b"
  using floor_divide_of_int_eq [of "numeral a" "numeral b", where ?'a = rat] by simp

lemma ceiling_rat_numeral:
  "\<lceil>numeral a / numeral b :: rat\<rceil> = - (- numeral a div numeral b)"
  using floor_divide_of_int_eq [of "- numeral a" "numeral b", where ?'a = rat]
  by (simp add: ceiling_def)

lemma bitlen_Bit0: "bitlen (numeral (Num.Bit0 n)) = bitlen (numeral n) + 1"
  by (subst compute_bitlen) simp

lemma bitlen_Bit1: "bitlen (numeral (Num.Bit1 n)) = bitlen (numeral n) + 1"
  by (subst compute_bitlen) simp

lemma bitlen_1: "bitlen 1 = 1"
  by (subst compute_bitlen) simp

lemmas round64_eval =
  round64_def binade_def round_half_even_def Let_def pow2_def
  bitlen_Bit0 bitlen_Bit1 bitlen_1 floor_rat_numeral ceiling_rat_numeral

lemmas string_eval =
  lit_def comma_def period_def euro_def plus_sign_def minus_sign_def zero_digit_def
  isDigit_def isWhiteSpace_def trim_def trimStart_def regex_test_def

lemmas parse_eval =
  parseFloat_def strUnsignedDecimalLiteral_def exponentPart_def digitsVal_def digitVal_def
  pow10_def isNaN_def

lemmas handler_eval =
  run_strict_def run_lenient_def init_def zero_result_def setValue_def
  handleInputChange_strict_def handleInputChange_lenient_def addInput_def removeInput_def
  handleReset_def handleInputBlur_def handleCalculation_strict_def
  handleCalculation_lenient_def fail_def publish_def ids_def

lemmas entry_eval = blank_def invalid_def numericValue_def

section \<open>The input pattern\<close>

lemma dropWhile_take_drop:
  assumes "list_all P (take n v)" and "drop n v \<noteq> []" and "\<not> P (hd (drop n v))"
  shows "dropWhile P v = drop n v"
proof -
  have "dropWhile P v = dropWhile P (take n v @ drop n v)" by simp
  also have "\<dots> = dropWhile P (drop n v)"
    using assms(1) by (subst dropWhile_append2) (auto simp add: list_all_iff)
  also have "\<dots> = drop n v"
    using assms(2,3) by (cases "drop n v") auto
  finally show ?thesis .
qed

lemma separator_not_digit: "c = comma \<or> c = period \<Longrightarrow> \<not> isDigit c"
  by (auto simp add: comma_def period_def isDigit_def)

lemma regex_test_pattern: "regex_test v = decimal_input_pattern v"
proof
  assume r: "regex_test v"
  let ?n = "length (takeWhile isDigit v)"
  have d: "drop ?n v = dropWhile isDigit v" by (rule dropWhile_eq_drop [symmetric])
  have t: "take ?n v = takeWhile isDigit v" by (rule takeWhile_eq_take [symmetric])
  have a: "list_all isDigit (take ?n v)"
    unfolding t by (simp add: list_all_iff) (meson set_takeWhileD)
  have "?n \<le> length v" by (rule length_takeWhile_le)
  moreover from r have "drop ?n v = [] \<or>
         ((hd (drop ?n v) = comma \<or> hd (drop ?n v) = period) \<and> length (tl (drop ?n v)) \<le> 2
          \<and> list_all isDigit (tl (drop ?n v)))"
    unfolding d by (auto simp add: regex_test_def split: list.splits)
  ultimately show "decimal_input_pattern v"
    unfolding decimal_input_pattern_def using a by blast
next
  assume "decimal_input_pattern v"
  then obtain n where n: "n \<le> length v" "list_all isDigit (take n v)"
    and alt: "drop n v = [] \<or>
         ((hd (drop n v) = comma \<or> hd (drop n v) = period) \<and> length (tl (drop n v)) \<le> 2
          \<and> list_all isDigit (tl (drop n v)))"
    unfolding decimal_input_pattern_def by blast
  show "regex_test v"
  proof (cases "drop n v = []")
    case True
    with n have "list_all isDigit v" by simp
    then have dw: "dropWhile isDigit v = []" by (simp add: list_all_iff)
    show ?thesis unfolding regex_test_def dw by simp
  next
    case False
    with alt have sep: "hd (drop n v) = comma \<or> hd (drop n v) = period"
      and fr: "length (tl (drop n v)) \<le> 2" "list_all isDigit (tl (drop n v))" by auto
    from sep have "\<not> isDigit (hd (drop n v))" by (rule separator_not_digit)
    from dropWhile_take_drop [OF n(2) False this]
    have "dropWhile isDigit v = drop n v" .
    with False sep fr show ?thesis
      by (cases "drop n v") (auto simp add: regex_test_def)
  qed
qed

section \<open>Fresh ids\<close>

lemma nextId_step_strict: "e \<noteq> Reset \<Longrightarrow> nextId s \<le> nextId (step_strict s e)"
  by (cases e) (simp_all add: addInput_def removeInput_def)

lemma nextId_step_lenient: "nextId s \<le> nextId (step_lenient s e)"
  by (cases e) (simp_all add: addInput_def removeInput_def)

lemma nextId_foldl_strict:
  "Reset \<notin> set evs \<Longrightarrow> nextId s \<le> nextId (foldl step_strict s evs)"
proof (induction evs arbitrary: s)
  case Nil
  then show ?case by simp
next
  case (Cons e es)
  then have "e \<noteq> Reset" by auto
  then have "nextId s \<le> nextId (step_strict s e)" by (rule nextId_step_strict)
  also from Cons have "\<dots> \<le> nextId (foldl step_strict (step_strict s e) es)" by simp
  finally show ?case by simp
qed

lemma nextId_foldl_lenient: "nextId s \<le> nextId (foldl step_lenient s evs)"
proof (induction evs arbitrary: s)
  case Nil
  then show ?case by simp
next
  case (Cons e es)
  have "nextId s \<le> nextId (step_lenient s e)" by (rule nextId_step_lenient)
  also have "\<dots> \<le> nextId (foldl step_lenient (step_lenient s e) es)" by (rule Cons.IH)
  finally show ?case by simp
qed

lemma inv_ids_below: "inv s \<Longrightarrow> k \<in> set (ids s) \<Longrightarrow> k < nextId s"
  by (simp add: inv_def list_all_iff)

lemma held_ids_strict_below:
  assumes "inv s" and "Reset \<notin> set evs" and "k \<in> held_ids_strict s evs"
  shows "k < nextId (foldl step_strict s evs)"
  using assms
proof (induction evs arbitrary: s)
  case Nil
  then show ?case by (simp add: inv_ids_below)
next
  case (Cons e es)
  from Cons.prems(3) consider "k \<in> set (ids s)" | "k \<in> held_ids_strict (step_strict s e) es"
    by auto
  then show ?case
  proof cases
    case 1
    with Cons.prems(1) have "k < nextId s" by (rule inv_ids_below)
    also from Cons.prems(2) have "\<dots> \<le> nextId (foldl step_strict s (e # es))"
      by (rule nextId_foldl_strict)
    finally show ?thesis .
  next
    case 2
    from Cons.prems(1) have "inv (step_strict s e)" by (rule inv_step_strict)
    moreover from Cons.prems(2) have "Reset \<notin> set es" by simp
    ultimately have "k < nextId (foldl step_strict (step_strict s e) es)"
      using 2 by (rule Cons.IH)
    then show ?thesis by simp
  qed
qed

lemma held_ids_lenient_below:
  assumes "inv s" and "k \<in> held_ids_lenient s evs"
  shows "k < nextId (foldl step_lenient s evs)"
  using assms
proof (induction evs arbitrary: s)
  case Nil
  then show ?case by (simp add: inv_ids_below)
next
  case (Cons e es)
  from Cons.prems(2) consider "k \<in> set (ids s)" | "k \<in> held_ids_lenient (step_lenient s e) es"
    by auto
  then show ?case
  proof cases
    case 1
    with Cons.prems(1) have "k < nextId s" by (rule inv_ids_below)
    also have "\<dots> \<le> nextId (foldl step_lenient s (e # es))"
      by (rule nextId_foldl_lenient)
    finally show ?thesis .
  next
    case 2
    from Cons.prems(1) have "inv (step_lenient s e)" by (rule inv_step_lenient)
    then have "k < nextId (foldl step_lenient (step_lenient s e) es)"
      using 2 by (rule Cons.IH)
    then show ?thesis by simp
  qed
qed

lemma run_strict_after_reset: "run_strict (pre @ Reset # post) = run_strict post"
  by (simp add: run_strict_def handleReset_init)

text \<open>
  The counter never exceeds the number of events by more than 2, so in a run of fewer
  than \<open>2^53 - 2\<close> events it stays in the range where adding 1 to a JavaScript number
  is exact.
\<close>

lemma nextId_step_strict_bound: "max (nextId (step_strict s e)) 2 \<le> max (nextId s) 2 + 1"
  by (cases e) (auto simp add: addInput_def removeInput_def handleReset_def)

lemma nextId_step_lenient_bound: "max (nextId (step_lenient s e)) 2 \<le> max (nextId s) 2 + 1"
  by (cases e) (auto simp add: addInput_def removeInput_def)

lemma nextId_foldl_strict_bound:
  "max (nextId (foldl step_strict s evs)) 2 \<le> max (nextId s) 2 + length evs"
proof (induction evs arbitrary: s)
  case Nil
  show ?case by simp
next
  case (Cons e es)
  have "max (nextId (foldl step_strict (step_strict s e) es)) 2
          \<le> max (nextId (step_strict s e)) 2 + length es" by (rule Cons.IH)
  also have "\<dots> \<le> max (nextId s) 2 + 1 + length es"
    using nextId_step_strict_bound [of s e] by simp
  finally show ?case by simp
qed

lemma nextId_foldl_lenient_bound:
  "max (nextId (foldl step_lenient s evs)) 2 \<le> max (nextId s) 2 + length evs"
proof (induction evs arbitrary: s)
  case Nil
  show ?case by simp
next
  case (Cons e es)
  have "max (nextId (foldl step_lenient (step_lenient s e) es)) 2
          \<le> max (nextId (step_lenient s e)) 2 + length es" by (rule Cons.IH)
  also have "\<dots> \<le> max (nextId s) 2 + 1 + length es"
    using nextId_step_lenient_bound [of s e] by simp
  finally show ?case by simp
qed

lemma nextId_run_bound:
  "nextId (run_strict evs) \<le> 2 + length evs"
  "nextId (run_lenient evl) \<le> 2 + length evl"
  using nextId_foldl_strict_bound [of init evs] nextId_foldl_lenient_bound [of init evl]
  by (simp_all add: run_strict_def run_lenient_def init_def)

section \<open>The binade of a rational\<close>

lemma pow2_nonneg: "0 \<le> k \<Longrightarrow> pow2 k = 2 ^ nat k"
  by (simp add: pow2_def)

lemma pow2_neg: "k \<le> 0 \<Longrightarrow> pow2 k = 1 / 2 ^ nat (- k)"
  by (cases "k = 0") (simp_all add: pow2_def)

lemma binade_bounds:
  assumes "0 < a"
  shows "pow2 (binade a) \<le> a \<and> a < pow2 (binade a + 1)"
proof (cases "1 \<le> a")
  case True
  define f where "f = \<lfloor>a\<rfloor>"
  from True have f1: "1 \<le> f" by (simp add: f_def le_floor_iff)
  then have fpos: "0 < f" by simp
  from bitlen_bounds [OF fpos] have lo: "2 ^ nat (bitlen f - 1) \<le> f" and hi: "f < 2 ^ nat (bitlen f)"
    by simp_all
  from fpos have b1: "1 \<le> bitlen f" by (simp add: bitlen_alt_def)
  have bin: "binade a = bitlen f - 1" using True by (simp add: binade_def f_def)
  have "pow2 (binade a) = 2 ^ nat (bitlen f - 1)" using b1 by (simp add: bin pow2_nonneg)
  also have "\<dots> = of_int (2 ^ nat (bitlen f - 1))" by simp
  also have "\<dots> \<le> of_int f" using lo by (simp only: of_int_le_iff)
  also have "\<dots> \<le> a" by (simp add: f_def)
  finally have l: "pow2 (binade a) \<le> a" .
  from hi have "f + 1 \<le> 2 ^ nat (bitlen f)" by simp
  then have "(of_int (f + 1) :: rat) \<le> of_int (2 ^ nat (bitlen f))" by (simp only: of_int_le_iff)
  moreover have "a < of_int (f + 1)" unfolding f_def by linarith
  ultimately have "a < of_int (2 ^ nat (bitlen f))" by simp
  also have "\<dots> = pow2 (binade a + 1)" using b1 by (simp add: bin pow2_nonneg)
  finally show ?thesis using l by simp
next
  case False
  then have a1: "a < 1" by simp
  define c where "c = \<lceil>1 / a\<rceil>"
  define m where "m = c - 1"
  from assms a1 have "1 < 1 / a" by simp
  then have "1 < c" by (simp add: c_def less_ceiling_iff)
  then have mpos: "0 < m" by (simp add: m_def)
  have mlt: "of_int m < 1 / a" unfolding m_def c_def by linarith
  have cge: "1 / a \<le> of_int (m + 1)" unfolding m_def c_def by linarith
  from bitlen_bounds [OF mpos] have lo: "2 ^ nat (bitlen m - 1) \<le> m" and hi: "m < 2 ^ nat (bitlen m)"
    by simp_all
  from mpos have b1: "1 \<le> bitlen m" by (simp add: bitlen_alt_def)
  have bin: "binade a = - bitlen m" using False by (simp add: binade_def c_def m_def)
  from hi have "m + 1 \<le> 2 ^ nat (bitlen m)" by simp
  then have "(of_int (m + 1) :: rat) \<le> of_int (2 ^ nat (bitlen m))" by (simp only: of_int_le_iff)
  with cge have "1 / a \<le> 2 ^ nat (bitlen m)" by simp
  with assms have "1 / 2 ^ nat (bitlen m) \<le> a"
    by (simp add: field_simps)
  moreover have "pow2 (binade a) = 1 / 2 ^ nat (bitlen m)" using b1 by (simp add: bin pow2_neg)
  ultimately have l: "pow2 (binade a) \<le> a" by simp
  have "(2::rat) ^ nat (bitlen m - 1) = of_int (2 ^ nat (bitlen m - 1))" by simp
  also have "\<dots> \<le> of_int m" using lo by (simp only: of_int_le_iff)
  also note mlt
  finally have "2 ^ nat (bitlen m - 1) < 1 / a" .
  with assms have "a < 1 / 2 ^ nat (bitlen m - 1)" by (simp add: field_simps)
  moreover have "pow2 (binade a + 1) = 1 / 2 ^ nat (bitlen m - 1)"
    using b1 by (simp add: bin pow2_neg) 
  ultimately show ?thesis using l by simp
qed

section \<open>Evaluation rules for printing\<close>

lemma decDigits_numeral:
  "decDigits (numeral n) =
     (if numeral n < (10::nat) then [digitChar (numeral n)]
      else decDigits (numeral n div 10) @ [digitChar (numeral n mod 10)])"
  by (rule decDigits.simps)

lemma decDigits_0: "decDigits 0 = [digitChar 0]"
  by (simp add: decDigits.simps)

lemma decDigits_1: "decDigits (Suc 0) = [digitChar 1]"
  by (simp add: decDigits.simps)

lemma shortest_from_numeral:
  "shortest_from x nd k (numeral n) =
     (case shortest_at x nd k of
        Some s \<Rightarrow> (s, k)
      | None \<Rightarrow> shortest_from x nd (Suc k) (pred_numeral n))"
  by (simp add: numeral_eq_Suc)

lemma shortest_decimal_from_numeral:
  "shortest_decimal_from a n k (numeral f) =
     (case digits_at a n k of
        Some s \<Rightarrow> of_int (int s) * pow10 (n - int k)
      | None \<Rightarrow> shortest_decimal_from a n (Suc k) (pred_numeral f))"
  by (simp add: numeral_eq_Suc)

lemma floor_rat_one_numeral: "\<lfloor>1 / numeral b :: rat\<rfloor> = 1 div numeral b"
  using floor_divide_of_int_eq [of 1 "numeral b", where ?'a = rat] by simp

lemmas print_eval =
  decDigits_numeral decDigits_0 decDigits_1 digitChar_def toFixed2_def largeToString_def
  exponential_def shortest_from_numeral shortest_at_def formatToParts_def groups3_def
  currencyTail_def collectParts_def collectPart_def finalResultValue_def lit_0_05_def

lemmas shortest_eval =
  shortestDecimal_def shortest_decimal_from_numeral digits_at_def decade_def pow10_def
  decDigits_numeral decDigits_0 decDigits_1 floor_rat_one_numeral

lemma lit_0_05_value: "lit_0_05 = Fin (3602879701896397 / 72057594037927936)"
  by (simp add: lit_0_05_def round64_eval)

lemma length_digits_1e21: "length (decDigits 1000000000000000000000) = 22"
  by (simp add: decDigits_numeral decDigits_1)

lemma shortest_1e21: "shortest_from 1000000000000000000000 22 1 22 = (1, 1)"
  by (simp add: shortest_from_numeral shortest_at_def round64_eval)

lemma largeToString_1e21: "largeToString 1000000000000000000000 = lit ''1e+21''"
proof -
  have "largeToString 1000000000000000000000 = exponential 1 22"
    by (simp add: largeToString_def length_digits_1e21 shortest_1e21 del: One_nat_def)
  also have "\<dots> = lit ''1e+21''"
    by (simp add: exponential_def decDigits_numeral decDigits_1 digitChar_def string_eval)
  finally show ?thesis .
qed

lemma parseFloat_1e21:
  "parseFloat (lit ''1000000000000000000000'') = Fin 1000000000000000000000"
  by (simp add: parse_eval string_eval round64_eval)

lemma toFixed2_1e21: "toFixed2 (Fin 1000000000000000000000) = lit ''1e+21''"
  by (simp add: toFixed2_def largeToString_1e21)

lemma entries_infinity:
  "run_lenient [LInputChange 1 (lit ''Infinity'')] =
     init\<lparr>inputs := [\<lparr>input_id = 1, input_value = lit ''Infinity''\<rparr>]\<rparr>"
  by (simp add: handler_eval)

lemma entry_infinity:
  "\<not> blank \<lparr>input_id = i, input_value = lit ''Infinity''\<rparr>"
  "numericValue \<lparr>input_id = i, input_value = lit ''Infinity''\<rparr> = PosInf"
  by (simp_all add: entry_eval parse_eval string_eval)



section \<open>The shape of printed amounts\<close>

lemma unat_digitChar: "d < 10 \<Longrightarrow> unat (of_nat (48 + d) :: 16 word) = 48 + d"
  by (simp only: unat_of_nat) simp

lemma isDigit_digitChar: "d < 10 \<Longrightarrow> isDigit (digitChar d)"
  unfolding isDigit_def digitChar_def word_le_nat_alt
  by (simp only: unat_digitChar) simp

lemma decDigits_digits: "list_all isDigit (decDigits n)"
proof (induction n rule: decDigits.induct)
  case (1 n)
  show ?case
  proof (cases "n < 10")
    case True
    then show ?thesis by (subst decDigits.simps) (simp add: isDigit_digitChar)
  next
    case False
    with 1 have "list_all isDigit (decDigits (n div 10))" by simp
    with False show ?thesis by (subst decDigits.simps) (simp add: isDigit_digitChar)
  qed
qed

lemma decDigits_nonempty: "decDigits n \<noteq> []"
  by (subst decDigits.simps) simp

lemma concat_chunks3: "concat (chunks3 xs) = xs"
  by (induction xs rule: chunks3.induct) simp_all

lemma concat_groups3: "concat (groups3 ds) = ds"
proof -
  have "concat (groups3 ds) = rev (concat (chunks3 (rev ds)))"
    by (simp add: groups3_def rev_concat rev_map)
  then show ?thesis by (simp add: concat_chunks3)
qed

lemma number_collectPart:
  "number (collectPart r (PInteger, g)) = number r @ g"
  "number (collectPart r (PGroup, g)) = number r @ g"
  "number (collectPart r (PDecimal, g)) = number r @ g"
  "number (collectPart r (PFraction, g)) = number r @ g"
  "number (collectPart r (PLiteral, g)) = number r"
  "number (collectPart r (PCurrency, g)) = number r"
  "number (collectPart r (PMinusSign, g)) = number r"
  by (simp_all add: collectPart_def)

lemma number_integerParts:
  "\<exists>J. number (foldl collectPart r (integerParts gs)) = number r @ J
       \<and> set J \<subseteq> set (concat gs) \<union> {period}
       \<and> (concat gs \<noteq> [] \<longrightarrow> J \<noteq> [])"
proof (induction gs arbitrary: r rule: integerParts.induct)
  case 1
  show ?case by simp
next
  case (2 g)
  show ?case by (auto simp add: number_collectPart)
next
  case (3 g g' gs)
  let ?r = "collectPart (collectPart r (PInteger, g)) (PGroup, [period])"
  from 3 [of ?r] obtain J where
    J: "number (foldl collectPart ?r (integerParts (g' # gs))) = number ?r @ J"
      "set J \<subseteq> set (concat (g' # gs)) \<union> {period}"
    by blast
  have "number (foldl collectPart r (integerParts (g # g' # gs)))
          = number r @ (g @ [period] @ J)"
    using J(1) by (simp add: number_collectPart)
  moreover have "set (g @ [period] @ J) \<subseteq> set (concat (g # g' # gs)) \<union> {period}"
    using J(2) by auto
  ultimately show ?case by blast
qed

text \<open>
  For a finite value the amount text is digits in groups, a comma and two digits.
\<close>

lemma number_two_fraction_digits:
  "\<exists>ip a b. number (collectParts (formatToParts (Fin q))) = ip @ [comma, a, b]
       \<and> isDigit a \<and> isDigit b \<and> ip \<noteq> [] \<and> list_all (\<lambda>c. isDigit c \<or> c = period) ip"
proof -
  define n where "n = nat \<lfloor>shortestDecimal \<bar>q\<bar> * 100 + 1 / 2\<rfloor>"
  define r where "r = foldl collectPart \<lparr>number = [], currency = [euro]\<rparr>
                        (if q < 0 then [(PMinusSign, [minus_sign])] else [])"
  have r: "number r = []" by (simp add: r_def number_collectPart)
  let ?gs = "groups3 (decDigits (n div 100))"
  from number_integerParts [of r ?gs] obtain J where
    J: "number (foldl collectPart r (integerParts ?gs)) = number r @ J"
      "set J \<subseteq> set (concat ?gs) \<union> {period}" "concat ?gs \<noteq> [] \<longrightarrow> J \<noteq> []"
    by blast
  let ?a = "digitChar (n mod 100 div 10)" and ?b = "digitChar (n mod 10)"
  have "number (collectParts (formatToParts (Fin q))) = J @ [comma, ?a, ?b]"
    using J(1) r
    by (simp add: collectParts_def formatToParts_def Let_def n_def [symmetric] r_def
        currencyTail_def number_collectPart)
  moreover have "isDigit ?a" "isDigit ?b" by (simp_all add: isDigit_digitChar)
  moreover have "J \<noteq> []" using J(3) by (simp add: concat_groups3 decDigits_nonempty)
  moreover have "list_all (\<lambda>c. isDigit c \<or> c = period) J"
    using J(2) decDigits_digits [of "n div 100"]
    by (auto simp add: concat_groups3 list_all_iff)
  ultimately show ?thesis by blast
qed

text \<open>
  For a value that is not negative and below \<open>10^21\<close>, \<open>toFixed(2)\<close> with the point
  replaced is digits, a comma and two digits.
\<close>

lemma toFixed2_two_decimals:
  assumes "0 \<le> q" and "q < 10 ^ 21"
  shows "\<exists>ip a b. replaceFirst period comma (toFixed2 (Fin q)) = ip @ [comma, a, b]
       \<and> isDigit a \<and> isDigit b \<and> ip \<noteq> [] \<and> list_all isDigit ip"
proof -
  define n where "n = nat \<lfloor>q * 100 + 1 / 2\<rfloor>"
  define m where "m = decDigits n"
  define m2 where "m2 = (if length m \<le> 2 then replicate (3 - length m) zero_digit @ m else m)"
  have zd: "isDigit zero_digit" by (simp add: isDigit_def zero_digit_def)
  have dm: "list_all isDigit m2"
    using decDigits_digits [of n] zd by (simp add: m2_def m_def list_all_iff)
  have len: "3 \<le> length m2" by (simp add: m2_def)
  let ?ip = "take (length m2 - 2) m2" and ?fr = "drop (length m2 - 2) m2"
  have tf: "toFixed2 (Fin q) = ?ip @ [period] @ ?fr"
    using assms by (simp add: toFixed2_def Let_def n_def m_def m2_def)
  have ipd: "list_all isDigit ?ip" using dm by (auto simp add: list_all_iff dest: in_set_takeD)
  have frd: "list_all isDigit ?fr" using dm by (auto simp add: list_all_iff dest: in_set_dropD)
  have "length ?fr = 2" using len by simp
  then obtain a b where fr: "?fr = [a, b]"
    by (cases ?fr; cases "tl ?fr") auto
  have np: "replaceFirst period comma (xs @ period # ys) = xs @ comma # ys"
    if "list_all isDigit xs" for xs ys
    using that by (induction xs) (auto simp add: isDigit_def period_def)
  have "replaceFirst period comma (toFixed2 (Fin q)) = ?ip @ [comma, a, b]"
    unfolding tf using np [OF ipd, of ?fr] fr by simp
  moreover have "isDigit a" "isDigit b" using frd fr by simp_all
  moreover have "?ip \<noteq> []" using len by auto
  ultimately show ?thesis using ipd by blast
qed

lemma calculate_strict_valid:
  assumes "list_all (\<lambda>inp. \<not> blank inp \<and> \<not> invalid inp) (inputs s)"
  shows "handleCalculation_strict s
           = publish s (foldl js_add (Fin 0) (map numericValue (inputs s)))"
proof -
  from assms have "find (\<lambda>inp. blank inp \<or> invalid inp) (inputs s) = None"
    by (auto simp add: find_None_iff list_all_iff)
  then show ?thesis by (simp add: handleCalculation_strict_def sum_strict_find)
qed

lemma calculate_lenient_valid:
  assumes "list_all (\<lambda>inp. blank inp \<or> \<not> invalid inp) (inputs s)"
  shows "handleCalculation_lenient s
           = publish s (foldl js_add (Fin 0)
               (map numericValue (filter (\<lambda>inp. \<not> blank inp) (inputs s))))"
proof -
  from assms have "find (\<lambda>inp. \<not> blank inp \<and> invalid inp) (inputs s) = None"
    by (auto simp add: find_None_iff list_all_iff)
  then show ?thesis by (simp add: handleCalculation_lenient_def sum_lenient_find)
qed

section \<open>The number model on known values\<close>

text \<open>
  Values every JavaScript engine shows: \<open>0.1 + 0.2\<close> is \<open>0.30000000000000004\<close>,
  \<open>2^53 + 1\<close> is not representable and rounds to \<open>2^53\<close>, a literal of 310 digits is
  \<open>Infinity\<close>, half the least subnormal rounds to zero, \<open>(1.005).toFixed(2)\<close> is
  \<open>"1.00"\<close> and \<open>(0.005).toFixed(2)\<close> is \<open>"0.01"\<close>.
\<close>

lemma round64_known_values:
  "js_add (round64 (1 / 10)) (round64 (2 / 10)) = Fin (1351079888211149 / 4503599627370496)"
  "round64 (2 ^ 53 + 1) = Fin (2 ^ 53)"
  "round64 (2 ^ 53 + 3) = Fin (2 ^ 53 + 4)"
  "round64 (10 ^ 309) = PosInf"
  "round64 (1 / 2 ^ 1075) = Fin 0"
  by (simp_all add: round64_eval floor_rat_one_numeral)

lemma parseFloat_known_values:
  "parseFloat (lit ''12.50'') = Fin (25 / 2)"
  "parseFloat (lit '' 12abc'') = Fin 12"
  "parseFloat (lit ''5.'') = Fin 5"
  "parseFloat (lit ''.5'') = Fin (1 / 2)"
  "parseFloat (lit ''1e3'') = Fin 1000"
  "parseFloat (lit ''-0'') = Fin 0"
  "parseFloat (lit ''.'') = NaN"
  "parseFloat (lit ''abc'') = NaN"
  "parseFloat (lit '''') = NaN"
  by (simp_all add: parse_eval string_eval round64_eval)

lemma toFixed2_known_values:
  "toFixed2 (parseFloat (lit ''1.005'')) = lit ''1.00''"
  "toFixed2 (parseFloat (lit ''0.005'')) = lit ''0.01''"
  "toFixed2 (parseFloat (lit ''12.5'')) = lit ''12.50''"
  "toFixed2 (parseFloat (lit ''0'')) = lit ''0.00''"
  by (simp_all add: parse_eval string_eval round64_eval toFixed2_def decDigits_numeral
      decDigits_0 decDigits_1 digitChar_def)

text \<open>
  The formatter on known values: \<open>0.3 * 0.05\<close> is shown as \<open>0,02\<close> (its shortest
  decimal is 0.015), \<open>0.125\<close> as \<open>0,13\<close> and \<open>12345.67\<close> as \<open>12.345,67\<close>.
\<close>

lemma shortestDecimal_known_values:
  "js_mul (round64 (3 / 10)) lit_0_05 = Fin (1080863910568919 / 72057594037927936)"
  "shortestDecimal (1080863910568919 / 72057594037927936) = 15 / 1000"
  "shortestDecimal (1 / 8) = 1 / 8"
  "shortestDecimal (3 / 4) = 3 / 4"
  by (simp_all add: lit_0_05_def round64_eval shortest_eval floor_rat_numeral)

lemma formatToParts_known_values:
  "collectParts (formatToParts (js_mul (round64 (3 / 10)) lit_0_05))
     = \<lparr>number = lit ''0,02'', currency = [euro]\<rparr>"
  "collectParts (formatToParts (Fin (1 / 8))) = \<lparr>number = lit ''0,13'', currency = [euro]\<rparr>"
  "collectParts (formatToParts (Fin (3 / 4))) = \<lparr>number = lit ''0,75'', currency = [euro]\<rparr>"
  "collectParts (formatToParts NaN) = \<lparr>number = [], currency = [euro]\<rparr>"
  by (simp_all add: shortestDecimal_known_values formatToParts_def groups3_def currencyTail_def
      collectParts_def collectPart_def decDigits_numeral decDigits_0 decDigits_1 digitChar_def
      string_eval floor_rat_numeral)

section \<open>The value of a calculation is a number\<close>




lemma find_Some_list_ex: "find P xs = Some x \<Longrightarrow> list_ex P xs \<and> P x"
  by (auto simp add: find_Some_iff list_ex_iff)









lemma calculation_strict_outcome:
  "handleCalculation_strict s =
     (if list_ex (\<lambda>inp. blank inp \<or> invalid inp) (inputs s)
      then s\<lparr>error := (if blank (the (find (\<lambda>inp. blank inp \<or> invalid inp) (inputs s)))
                         then msgMissing else msgInvalid),
              isResultVisible := False\<rparr>
      else s\<lparr>error := [],
              result := collectParts (formatToParts
                (js_mul (js_div (foldl js_add (Fin 0) (map numericValue (inputs s)))
                   (Fin (of_int (int (length (inputs s)))))) lit_0_05)),
              isResultVisible := True\<rparr>)"
proof (cases "find (\<lambda>inp. blank inp \<or> invalid inp) (inputs s)")
  case None
  then have "\<not> list_ex (\<lambda>inp. blank inp \<or> invalid inp) (inputs s)"
    by (simp add: find_None_iff list_ex_iff)
  with None show ?thesis
    by (simp add: handleCalculation_strict_def sum_strict_find publish_def finalResultValue_def)
next
  case (Some x)
  from find_Some_list_ex [OF this] Some show ?thesis
    by (simp add: handleCalculation_strict_def sum_strict_find fail_def)
qed

lemma calculation_lenient_outcome:
  "handleCalculation_lenient s =
     (if list_ex (\<lambda>inp. \<not> blank inp \<and> invalid inp) (inputs s)
      then s\<lparr>error := msgInvalid, isResultVisible := False\<rparr>
      else s\<lparr>error := [],
              result := collectParts (formatToParts
                (js_mul (js_div (foldl js_add (Fin 0)
                     (map numericValue (filter (\<lambda>inp. \<not> blank inp) (inputs s))))
                   (Fin (of_int (int (length (inputs s)))))) lit_0_05)),
              isResultVisible := True\<rparr>)"
proof (cases "find (\<lambda>inp. \<not> blank inp \<and> invalid inp) (inputs s)")
  case None
  then have "\<not> list_ex (\<lambda>inp. \<not> blank inp \<and> invalid inp) (inputs s)"
    by (simp add: find_None_iff list_ex_iff)
  with None show ?thesis
    by (simp add: handleCalculation_lenient_def sum_lenient_find publish_def finalResultValue_def)
next
  case (Some x)
  from find_Some_list_ex [OF this] Some show ?thesis
    by (simp add: handleCalculation_lenient_def sum_lenient_find fail_def)
qed

section \<open>Concrete entries\<close>

lemma entries_dot_blank:
  "inputs (run_strict [InputChange 1 (lit ''.''), AddInput]) =
     [\<lparr>input_id = 1, input_value = lit ''.''\<rparr>, \<lparr>input_id = 2, input_value = []\<rparr>]"
  by (simp add: handler_eval string_eval)

lemma entries_blank_dot:
  "inputs (run_strict [AddInput, InputChange 2 (lit ''.'')]) =
     [\<lparr>input_id = 1, input_value = []\<rparr>, \<lparr>input_id = 2, input_value = lit ''.''\<rparr>]"
  by (simp add: handler_eval string_eval)

lemma entries_5_blank:
  "inputs (run_strict [InputChange 1 (lit ''5''), AddInput]) =
     [\<lparr>input_id = 1, input_value = lit ''5''\<rparr>, \<lparr>input_id = 2, input_value = []\<rparr>]"
  by (simp add: handler_eval string_eval)

lemma entries_dot:
  "inputs (run_strict [InputChange 1 (lit ''.'')]) = [\<lparr>input_id = 1, input_value = lit ''.''\<rparr>]"
  by (simp add: handler_eval string_eval)

lemma entry_dot: "invalid \<lparr>input_id = i, input_value = lit ''.''\<rparr>"
  "\<not> blank \<lparr>input_id = i, input_value = lit ''.''\<rparr>"
  by (simp_all add: entry_eval parse_eval string_eval)

lemma entry_blank: "blank \<lparr>input_id = i, input_value = []\<rparr>"
  by (simp add: entry_eval string_eval)

lemma entry_5: "\<not> invalid \<lparr>input_id = i, input_value = lit ''5''\<rparr>"
  "\<not> blank \<lparr>input_id = i, input_value = lit ''5''\<rparr>"
  "numericValue \<lparr>input_id = i, input_value = lit ''5''\<rparr> = Fin 5"
  by (simp_all add: entry_eval parse_eval string_eval round64_eval)

text \<open>
  Two calculations as the form shows them: the strict variant on \<open>"0,30"\<close> and the
  lenient variant on \<open>"0,6"\<close> and \<open>""\<close> both display \<open>0,02\<close>.
\<close>

lemma calculation_known_values:
  "result (run_strict [InputChange 1 (lit ''0,30''), Calculation])
     = \<lparr>number = lit ''0,02'', currency = [euro]\<rparr>"
  "result (run_lenient [LInputChange 1 (lit ''0,6''), LAddInput, LCalculation])
     = \<lparr>number = lit ''0,02'', currency = [euro]\<rparr>"
proof -
  have e1: "inputs (run_strict [InputChange 1 (lit ''0,30'')])
              = [\<lparr>input_id = 1, input_value = lit ''0,30''\<rparr>]"
    by (simp add: handler_eval string_eval)
  have e2: "inputs (run_lenient [LInputChange 1 (lit ''0,6''), LAddInput])
              = [\<lparr>input_id = 1, input_value = lit ''0,6''\<rparr>, \<lparr>input_id = 2, input_value = []\<rparr>]"
    by (simp add: handler_eval string_eval)
  have v1: "numericValue \<lparr>input_id = k, input_value = lit ''0,30''\<rparr> = round64 (3 / 10)"
    "\<not> blank \<lparr>input_id = k, input_value = lit ''0,30''\<rparr>"
    for k by (simp_all add: entry_eval parse_eval string_eval)
  have v2: "numericValue \<lparr>input_id = k, input_value = lit ''0,6''\<rparr> = round64 (3 / 5)"
    "\<not> blank \<lparr>input_id = k, input_value = lit ''0,6''\<rparr>"
    for k by (simp_all add: entry_eval parse_eval string_eval)
  have r3: "round64 (3 / 10) = Fin (5404319552844595 / 18014398509481984)"
    by (simp add: round64_eval)
  have r6: "round64 (3 / 5) = Fin (5404319552844595 / 9007199254740992)"
    by (simp add: round64_eval)
  have a3: "js_add (Fin 0) (round64 (3 / 10)) = round64 (3 / 10)"
    unfolding r3 by (simp add: round64_eval)
  have a6: "js_add (Fin 0) (round64 (3 / 5)) = round64 (3 / 5)"
    unfolding r6 by (simp add: round64_eval)
  have d3: "js_div (round64 (3 / 10)) (Fin 1) = round64 (3 / 10)"
    unfolding r3 by (simp add: round64_eval)
  have d6: "js_div (round64 (3 / 5)) (Fin 2) = round64 (3 / 10)"
    unfolding r3 r6 by (simp add: round64_eval)
  have i1: "\<not> invalid \<lparr>input_id = k, input_value = lit ''0,30''\<rparr>"
    for k by (simp add: invalid_def v1 r3 isNaN_def)
  have i2: "\<not> invalid \<lparr>input_id = k, input_value = lit ''0,6''\<rparr>"
    for k by (simp add: invalid_def v2 r6 isNaN_def)
  have s1: "run_strict [InputChange 1 (lit ''0,30''), Calculation]
              = handleCalculation_strict (run_strict [InputChange 1 (lit ''0,30'')])"
    by (simp add: run_strict_def)
  have s2: "run_lenient [LInputChange 1 (lit ''0,6''), LAddInput, LCalculation]
              = handleCalculation_lenient (run_lenient [LInputChange 1 (lit ''0,6''), LAddInput])"
    by (simp add: run_lenient_def)
  show "result (run_strict [InputChange 1 (lit ''0,30''), Calculation])
     = \<lparr>number = lit ''0,02'', currency = [euro]\<rparr>"
    unfolding s1
    by (simp add: calculation_strict_outcome e1 v1 i1 a3 d3 formatToParts_known_values
        del: One_nat_def)
  show "result (run_lenient [LInputChange 1 (lit ''0,6''), LAddInput, LCalculation])
     = \<lparr>number = lit ''0,02'', currency = [euro]\<rparr>"
    unfolding s2
    by (simp add: calculation_lenient_outcome e2 v2 i2 entry_blank a6 d6
        formatToParts_known_values del: One_nat_def)
qed

section \<open>Properties\<close>

text \<open>
  C1 at the entry \<open>"Infinity"\<close> of the lenient variant: the text parses to a number that
  is not negative, the calculation succeeds, and the published amount text is empty
  instead of a number with two fraction digits.
\<close>

theorem calculate_infinity_entry:
  "inputs (run_lenient [LInputChange 1 (lit ''Infinity'')])
     = [\<lparr>input_id = 1, input_value = lit ''Infinity''\<rparr>]
   \<and> numericValue \<lparr>input_id = 1, input_value = lit ''Infinity''\<rparr> = PosInf
   \<and> invalid \<lparr>input_id = 1, input_value = lit ''Infinity''\<rparr> = False
   \<and> error (run_lenient [LInputChange 1 (lit ''Infinity''), LCalculation]) = []
   \<and> isResultVisible (run_lenient [LInputChange 1 (lit ''Infinity''), LCalculation])
   \<and> result (run_lenient [LInputChange 1 (lit ''Infinity''), LCalculation])
       = \<lparr>number = [], currency = [euro]\<rparr>"
proof -
  have r: "run_lenient [LInputChange 1 (lit ''Infinity''), LCalculation]
             = handleCalculation_lenient (run_lenient [LInputChange 1 (lit ''Infinity'')])"
    by (simp add: run_lenient_def)
  have s: "sum_lenient [\<lparr>input_id = 1, input_value = lit ''Infinity''\<rparr>] (Fin 0) = Inr PosInf"
    by (simp add: sum_lenient_Cons entry_infinity invalid_def isNaN_def
        del: sum_lenient.simps(2))
  have f: "collectParts (formatToParts (finalResultValue PosInf (Suc 0)))
             = \<lparr>number = [], currency = [euro]\<rparr>"
    by (simp add: finalResultValue_def lit_0_05_value formatToParts_def currencyTail_def
        collectParts_def collectPart_def)
  have h: "handleCalculation_lenient (init\<lparr>inputs := [\<lparr>input_id = 1, input_value = lit ''Infinity''\<rparr>]\<rparr>)
             = publish (init\<lparr>inputs := [\<lparr>input_id = 1, input_value = lit ''Infinity''\<rparr>]\<rparr>) PosInf"
    by (simp add: handleCalculation_lenient_def s del: sum_lenient.simps(2) One_nat_def)
  show ?thesis
    unfolding r entries_infinity h
    by (simp add: publish_def f entry_infinity invalid_def isNaN_def)
qed

text \<open>
  C2, as the code has it. In the strict variant a calculation on an entry list with a
  blank entry always fails and leaves the stored result as it was; the loop stops at the
  first entry it rejects, so the error is MissingAmount when every entry before the
  first blank one is a number that is not negative, and InvalidAmount otherwise.
\<close>

theorem strict_blank_entry_fails:
  assumes "list_ex blank (inputs s)"
  shows "result (handleCalculation_strict s) = result s
       \<and> isResultVisible (handleCalculation_strict s) = False
       \<and> error (handleCalculation_strict s) =
           (if list_all (\<lambda>inp. \<not> invalid inp) (takeWhile (\<lambda>inp. \<not> blank inp) (inputs s))
            then msgMissing else msgInvalid)"
  using sum_strict_blank [OF assms, of "Fin 0"]
  by (simp add: handleCalculation_strict_def fail_def)

theorem strict_blank_entry_fails_witness:
  "list_ex blank (inputs (run_strict [InputChange 1 (lit ''5''), AddInput]))
   \<and> result (handleCalculation_strict (run_strict [InputChange 1 (lit ''5''), AddInput]))
       = result (run_strict [InputChange 1 (lit ''5''), AddInput])
   \<and> error (handleCalculation_strict (run_strict [InputChange 1 (lit ''5''), AddInput]))
       = msgMissing"
proof -
  have b: "list_ex blank (inputs (run_strict [InputChange 1 (lit ''5''), AddInput]))"
    by (simp add: entries_5_blank entry_blank del: One_nat_def)
  from strict_blank_entry_fails [OF b] show ?thesis
    by (simp add: entries_5_blank entry_blank entry_5 del: One_nat_def)
qed

text \<open>
  C2 as stated fails: with the entries \<open>"."\<close> and \<open>""\<close> the list contains a blank entry,
  yet the calculation stops at the first entry and reports InvalidAmount.
\<close>

theorem strict_blank_entry_counterexample:
  "list_ex blank (inputs (run_strict [InputChange 1 (lit ''.''), AddInput]))
   \<and> error (handleCalculation_strict (run_strict [InputChange 1 (lit ''.''), AddInput]))
       \<noteq> msgMissing"
  using msg_distinct
  by (simp add: handleCalculation_strict_def fail_def entries_dot_blank sum_strict_Cons
      entry_dot entry_blank del: sum_strict.simps(2) One_nat_def)



text \<open>
  C4, as the code has it. A calculation on an entry list with a non-blank entry that
  does not parse or is negative always fails and leaves the stored result as it was,
  with one message. In the lenient variant the error is InvalidAmount. In the strict
  variant it is InvalidAmount unless a blank entry comes before the first such entry,
  in which case the loop has already stopped there with MissingAmount.
\<close>

theorem invalid_entry_fails:
  assumes "list_ex (\<lambda>inp. \<not> blank inp \<and> invalid inp) (inputs s)"
  shows "result (handleCalculation_lenient s) = result s
       \<and> isResultVisible (handleCalculation_lenient s) = False
       \<and> error (handleCalculation_lenient s) = msgInvalid
       \<and> result (handleCalculation_strict s) = result s
       \<and> isResultVisible (handleCalculation_strict s) = False
       \<and> error (handleCalculation_strict s) =
           (if list_ex blank (takeWhile (\<lambda>inp. \<not> (\<not> blank inp \<and> invalid inp)) (inputs s))
            then msgMissing else msgInvalid)"
  using sum_strict_invalid [OF assms, of "Fin 0"] sum_lenient_invalid [OF assms, of "Fin 0"]
  by (simp add: handleCalculation_strict_def handleCalculation_lenient_def fail_def)

theorem invalid_entry_fails_witness:
  "list_ex (\<lambda>inp. \<not> blank inp \<and> invalid inp) (inputs (run_strict [InputChange 1 (lit ''.'')]))
   \<and> error (handleCalculation_lenient (run_strict [InputChange 1 (lit ''.'')])) = msgInvalid
   \<and> error (handleCalculation_strict (run_strict [InputChange 1 (lit ''.'')])) = msgInvalid
   \<and> result (handleCalculation_strict (run_strict [InputChange 1 (lit ''.'')]))
       = result (run_strict [InputChange 1 (lit ''.'')])"
proof -
  have b: "list_ex (\<lambda>inp. \<not> blank inp \<and> invalid inp)
             (inputs (run_strict [InputChange 1 (lit ''.'')]))"
    by (simp add: entries_dot entry_dot del: One_nat_def)
  from invalid_entry_fails [OF b] show ?thesis
    by (simp add: entries_dot entry_dot del: One_nat_def)
qed

text \<open>
  C4 as stated fails in the strict variant: with the entries \<open>""\<close> and \<open>"."\<close> the list
  contains a non-blank entry that does not parse, yet the error is MissingAmount.
\<close>

theorem invalid_entry_counterexample:
  "list_ex (\<lambda>inp. \<not> blank inp \<and> invalid inp)
     (inputs (run_strict [AddInput, InputChange 2 (lit ''.'')]))
   \<and> error (handleCalculation_strict (run_strict [AddInput, InputChange 2 (lit ''.'')]))
       \<noteq> msgInvalid"
  using msg_distinct
  by (simp add: handleCalculation_strict_def fail_def entries_blank_dot sum_strict_Cons
      entry_dot entry_blank del: sum_strict.simps(2) One_nat_def)

text \<open>
  C5, as the code has it. The pattern of the strict variant is the one the specification
  words; the strict variant stores a text (in the entry with the given id) when it
  matches the pattern and leaves the entry list as it was when it does not; the lenient
  variant has no pattern and stores every text.
\<close>

theorem updateEntry_pattern:
  "regex_test v = decimal_input_pattern v
   \<and> inputs (handleInputChange_strict i v s)
       = (if regex_test v then map (setValue i v) (inputs s) else inputs s)
   \<and> inputs (handleInputChange_lenient i v s) = map (setValue i v) (inputs s)"
  by (simp add: regex_test_pattern handleInputChange_strict_def handleInputChange_lenient_def
      Let_def)

theorem updateEntry_pattern_witness:
  "regex_test (lit ''12,5'') = decimal_input_pattern (lit ''12,5'')
   \<and> map input_value (inputs (handleInputChange_strict 1 (lit ''12,5'') init)) = [lit ''12,5'']
   \<and> map input_value (inputs (handleInputChange_strict 1 (lit ''1,234'') init)) = [[]]
   \<and> map input_value (inputs (handleInputChange_lenient 1 (lit ''1,234'') init)) = [lit ''1,234'']"
  using updateEntry_pattern [of "lit ''12,5''" 1 init] updateEntry_pattern [of "lit ''1,234''" 1 init]
  by (simp add: string_eval init_def setValue_def)

text \<open>
  C5 as stated fails in the lenient variant: the text \<open>"abc"\<close> does not match the
  pattern and is stored.
\<close>

theorem updateEntry_pattern_counterexample:
  "\<not> regex_test (lit ''abc'')
   \<and> map input_value (inputs (handleInputChange_lenient 1 (lit ''abc'') init)) = [lit ''abc'']
   \<and> map input_value (inputs init) = [[]]"
  by (simp add: handleInputChange_lenient_def string_eval init_def setValue_def)

text \<open>
  C6. Removing an entry when exactly one is left changes nothing, and in no run of
  either variant does the entry list become empty.
\<close>

theorem removeEntry_keeps_last_entry:
  "(length (inputs s) = 1 \<longrightarrow> removeInput i s = s)
   \<and> inputs (run_strict evs) \<noteq> []
   \<and> inputs (run_lenient evl) \<noteq> []"
  using inv_run_strict [of evs] inv_run_lenient [of evl]
  by (simp add: removeInput_def inv_def)

theorem removeEntry_keeps_last_entry_witness:
  "length (inputs init) = 1 \<and> removeInput 1 init = init
   \<and> inputs (run_strict [AddInput, RemoveInput 1, RemoveInput 2]) \<noteq> []
   \<and> inputs (run_lenient [LRemoveInput 1]) \<noteq> []"
  using removeEntry_keeps_last_entry
    [of init 1 "[AddInput, RemoveInput 1, RemoveInput 2]" "[LRemoveInput 1]"]
  by (simp add: init_def)

text \<open>
  C7 at an entry of 22 digits in the strict variant: the text matches the input pattern,
  its value is \<open>10^21\<close>, and on blur it is rewritten to \<open>1e+21\<close>, which has neither two
  decimal places nor a comma.
\<close>

theorem normalizeOnCommit_large_amount:
  "regex_test (lit ''1000000000000000000000'')
   \<and> map input_value
        (inputs (run_strict [InputChange 1 (lit ''1000000000000000000000''), InputBlur 1]))
       = [lit ''1e+21'']"
proof -
  have rt: "regex_test (lit ''1000000000000000000000'')"
    by (simp add: string_eval)
  have r: "run_strict [InputChange 1 (lit ''1000000000000000000000''), InputBlur 1]
        = handleInputBlur 1 (handleInputChange_strict 1 (lit ''1000000000000000000000'') init)"
    by (simp add: run_strict_def)
  have c: "inputs (handleInputChange_strict 1 (lit ''1000000000000000000000'') init)
        = [\<lparr>input_id = 1, input_value = lit ''1000000000000000000000''\<rparr>]"
    by (simp add: handleInputChange_strict_def rt init_def setValue_def)
  have nb: "trim (lit ''1000000000000000000000'') \<noteq> []"
    by (simp add: string_eval)
  have sv: "replaceFirst comma period (lit ''1000000000000000000000'')
        = lit ''1000000000000000000000''"
    by (simp add: string_eval)
  have fv: "replaceFirst period comma (lit ''1e+21'') = lit ''1e+21''"
    by (simp add: string_eval)
  have "map input_value
          (inputs (handleInputBlur 1 (handleInputChange_strict 1 (lit ''1000000000000000000000'') init)))
        = [lit ''1e+21'']"
    by (simp add: handleInputBlur_def c nb sv parseFloat_1e21 toFixed2_1e21 fv isNaN_def
        setValue_def del: One_nat_def)
  with rt r show ?thesis by simp
qed

text \<open>
  C8, as the code has it. \<open>addInput\<close> gives the new entry the current value of the
  counter. In a run without a reset that value is not the id of any entry of any state
  of the run; a reset returns to the initial state and restarts the counter at 2, so
  this holds for the part of a run after its last reset. The lenient variant has no
  reset and never reuses an id.
\<close>

theorem addEntry_fresh_id_since_reset:
  "ids (addInput s) = ids s @ [nextId s]
   \<and> (Reset \<notin> set evs \<longrightarrow> nextId (run_strict evs) \<notin> held_ids_strict init evs)
   \<and> run_strict (pre @ Reset # evs) = run_strict evs
   \<and> nextId (run_lenient evl) \<notin> held_ids_lenient init evl"
proof -
  have "nextId (run_strict evs) \<notin> held_ids_strict init evs" if "Reset \<notin> set evs"
    using held_ids_strict_below [OF inv_init that] unfolding run_strict_def by blast
  moreover have "nextId (run_lenient evl) \<notin> held_ids_lenient init evl"
    using held_ids_lenient_below [OF inv_init] unfolding run_lenient_def by blast
  ultimately show ?thesis
    by (simp add: run_strict_after_reset addInput_def ids_def)
qed

theorem addEntry_fresh_id_since_reset_witness:
  "ids (addInput init) = [1, 2]
   \<and> Reset \<notin> set [AddInput, RemoveInput 2]
   \<and> nextId (run_strict [AddInput, RemoveInput 2]) \<notin> held_ids_strict init [AddInput, RemoveInput 2]
   \<and> nextId (run_lenient [LAddInput]) \<notin> held_ids_lenient init [LAddInput]"
  using addEntry_fresh_id_since_reset [of init "[AddInput, RemoveInput 2]" "[]" "[LAddInput]"]
  by (simp add: handler_eval)

text \<open>
  C8 as stated fails: after an entry was added, a reset restarts the counter, and the
  next entry added gets the id 2 that the earlier entry held.
\<close>

theorem addEntry_fresh_id_counterexample:
  "ids (run_strict [AddInput]) = [1, 2]
   \<and> ids (run_strict [AddInput, Reset]) = [1]
   \<and> ids (run_strict [AddInput, Reset, AddInput]) = [1, 2]
   \<and> nextId (run_strict [AddInput, Reset]) \<in> held_ids_strict init [AddInput, Reset]"
  by (simp add: handler_eval)

text \<open>
  C9. After any run, a reset leaves one entry with blank text, no error, the result
  \<open>'0.00'\<close> with currency \<open>'\<euro>'\<close>, and the result not visible.
\<close>

theorem reset_restores_initial_state:
  "step_strict (run_strict evs) Reset =
     \<lparr>inputs = [\<lparr>input_id = 1, input_value = []\<rparr>], nextId = 2,
      result = \<lparr>number = lit ''0.00'', currency = [euro]\<rparr>, error = [],
      isResultVisible = False\<rparr>"
  by (simp add: handleReset_def zero_result_def)



end
